theory Spec2Isabelle
  imports Main
begin

section \<open>Client: the projection state of SwarmContext\<close>

text \<open>
  The dashboard keeps its view of the swarm in a reducer state (\<open>useReducer(swarmReducer,
  initialState)\<close>). Values of TypeScript type \<open>any\<close> are JSON trees.
\<close>

datatype json =
    JNull
  | JBool bool
  | JNum int
  | JStr string
  | JArr "json list"
  | JObj "(string \<times> json) list"

text \<open>\<open>interface Assistant\<close>; optional fields are options.\<close>

record Assistant =
  a_id :: string
  a_name :: string
  a_description :: "string option"
  a_instructions :: "string option"
  a_model :: string
  a_tools :: "json list option"
  a_file_ids :: "string list option"
  a_metadata :: "(string \<times> json) list option"
  a_created_at :: int

record ManagerAssistantOptions =
  mo_name :: string
  mo_model :: string
  mo_instructions :: "string option"

record SwarmConfig =
  debug :: bool
  managerAssistantOptions :: ManagerAssistantOptions

datatype TaskStatus = Pending | Running | Completed | Failed

record Task =
  t_id :: string
  t_prompt :: string
  t_assistantIds :: "string list"
  t_status :: TaskStatus
  t_createdAt :: string
  t_result :: "json option"
  t_error :: "string option"

text \<open>
  \<open>Partial<Task>\<close>: every field may be absent (\<open>None\<close>). A field that is present
  overrides the task's field in \<open>{ ...task, ...updates }\<close>; the fields that are optional
  in \<open>Task\<close> carry an option of their own.
\<close>

record TaskUpdates =
  u_id :: "string option"
  u_prompt :: "string option"
  u_assistantIds :: "string list option"
  u_status :: "TaskStatus option"
  u_createdAt :: "string option"
  u_result :: "json option option"
  u_error :: "string option option"

definition no_updates :: TaskUpdates where
  "no_updates = \<lparr> u_id = None, u_prompt = None, u_assistantIds = None, u_status = None,
     u_createdAt = None, u_result = None, u_error = None \<rparr>"

definition spread_task :: "Task \<Rightarrow> TaskUpdates \<Rightarrow> Task" where
  "spread_task task u =
     \<lparr> t_id = (case u_id u of None \<Rightarrow> t_id task | Some v \<Rightarrow> v),
       t_prompt = (case u_prompt u of None \<Rightarrow> t_prompt task | Some v \<Rightarrow> v),
       t_assistantIds = (case u_assistantIds u of None \<Rightarrow> t_assistantIds task | Some v \<Rightarrow> v),
       t_status = (case u_status u of None \<Rightarrow> t_status task | Some v \<Rightarrow> v),
       t_createdAt = (case u_createdAt u of None \<Rightarrow> t_createdAt task | Some v \<Rightarrow> v),
       t_result = (case u_result u of None \<Rightarrow> t_result task | Some v \<Rightarrow> v),
       t_error = (case u_error u of None \<Rightarrow> t_error task | Some v \<Rightarrow> v) \<rparr>"

record SwarmState =
  assistants :: "Assistant list"
  config :: SwarmConfig
  tasks :: "Task list"
  isLoading :: bool
  isInitialized :: bool
  apiKeyConfigured :: bool
  error :: "string option"

datatype SwarmAction =
    SET_LOADING bool
  | SET_ASSISTANTS "Assistant list"
  | ADD_ASSISTANT Assistant
  | UPDATE_ASSISTANT Assistant
  | REMOVE_ASSISTANT string
  | SET_CONFIG SwarmConfig
  | SET_TASKS "Task list"
  | ADD_TASK Task
  | UPDATE_TASK string TaskUpdates
  | SET_INITIALIZED bool
  | SET_API_KEY_CONFIGURED bool
  | SET_ERROR "string option"

definition initialState :: SwarmState where
  "initialState =
     \<lparr> assistants = [],
       config = \<lparr> debug = True,
                  managerAssistantOptions =
                    \<lparr> mo_name = ''[AUTOMATED] Swarm Manager'',
                      mo_model = ''gpt-4-1106-preview'',
                      mo_instructions = None \<rparr> \<rparr>,
       tasks = [],
       isLoading = False,
       isInitialized = False,
       apiKeyConfigured = False,
       error = None \<rparr>"

fun swarmReducer :: "SwarmState \<Rightarrow> SwarmAction \<Rightarrow> SwarmState" where
  "swarmReducer state (SET_LOADING b) = state\<lparr> isLoading := b \<rparr>"
| "swarmReducer state (SET_ASSISTANTS as) = state\<lparr> assistants := as \<rparr>"
| "swarmReducer state (ADD_ASSISTANT a) = state\<lparr> assistants := assistants state @ [a] \<rparr>"
| "swarmReducer state (UPDATE_ASSISTANT p) =
     state\<lparr> assistants :=
       map (\<lambda>assistant. if a_id assistant = a_id p then p else assistant) (assistants state) \<rparr>"
| "swarmReducer state (REMOVE_ASSISTANT i) =
     state\<lparr> assistants := filter (\<lambda>assistant. a_id assistant \<noteq> i) (assistants state) \<rparr>"
| "swarmReducer state (SET_CONFIG c) = state\<lparr> config := c \<rparr>"
| "swarmReducer state (SET_TASKS ts) = state\<lparr> tasks := ts \<rparr>"
| "swarmReducer state (ADD_TASK t) = state\<lparr> tasks := t # tasks state \<rparr>"
| "swarmReducer state (UPDATE_TASK i u) =
     state\<lparr> tasks :=
       map (\<lambda>task. if t_id task = i then spread_task task u else task) (tasks state) \<rparr>"
| "swarmReducer state (SET_INITIALIZED b) = state\<lparr> isInitialized := b \<rparr>"
| "swarmReducer state (SET_API_KEY_CONFIGURED b) = state\<lparr> apiKeyConfigured := b \<rparr>"
| "swarmReducer state (SET_ERROR e) = state\<lparr> error := e \<rparr>"

subsection \<open>The wire envelope and the message effect\<close>

text \<open>
  \<open>WebSocketMessage.data\<close> is \<open>any\<close> in the source; the message effect reads it at the
  shape of the action it dispatches. The payload type lists those shapes: the whole
  assistant, \<open>{ id }\<close>, the configuration, \<open>{ taskId, prompt, assistantIds }\<close>,
  \<open>{ taskId, response }\<close>, \<open>{ taskId, error }\<close>, and any other JSON value. The code tests
  only that the data is truthy and dispatches it as it is, whatever its shape. The typed
  state below has no value for data of another shape than the action's payload type, so
  \<open>message_action\<close> agrees with the code on the messages whose data has the shape that
  their type reads, and on those without data; for the others its \<open>None\<close> is not what the
  code does, and nothing below is stated at such a message.
\<close>

datatype Payload =
    AssistantData Assistant
  | IdData string
  | ConfigData SwarmConfig
  | TaskStartedData string string "string list"
  | TaskCompletedData string "json option"
  | TaskErrorData string "string option"
  | OtherData json

record WebSocketMessage =
  m_type :: string
  m_data :: "Payload option"
  m_timestamp :: string
  m_clientId :: "string option"

text \<open>
  The action that the effect on \<open>lastMessage\<close> dispatches, if any. \<open>now\<close> is
  \<open>new Date().toISOString()\<close> at the moment the effect runs. The test
  \<open>lastMessage.data?.id\<close> of \<open>assistant-deleted\<close> is false for the empty string.
\<close>

definition message_action :: "string \<Rightarrow> WebSocketMessage \<Rightarrow> SwarmAction option" where
  "message_action now lastMessage =
     (if m_type lastMessage = ''swarm-initialized'' then Some (SET_INITIALIZED True)
      else if m_type lastMessage = ''assistant-created'' then
        (case m_data lastMessage of
           Some (AssistantData a) \<Rightarrow> Some (ADD_ASSISTANT a)
         | _ \<Rightarrow> None)
      else if m_type lastMessage = ''assistant-updated'' then
        (case m_data lastMessage of
           Some (AssistantData a) \<Rightarrow> Some (UPDATE_ASSISTANT a)
         | _ \<Rightarrow> None)
      else if m_type lastMessage = ''assistant-deleted'' then
        (case m_data lastMessage of
           Some (IdData i) \<Rightarrow> (if i = [] then None else Some (REMOVE_ASSISTANT i))
         | _ \<Rightarrow> None)
      else if m_type lastMessage = ''config-updated'' then
        (case m_data lastMessage of
           Some (ConfigData c) \<Rightarrow> Some (SET_CONFIG c)
         | _ \<Rightarrow> None)
      else if m_type lastMessage = ''task-started'' then
        (case m_data lastMessage of
           Some (TaskStartedData taskId prompt assistantIds) \<Rightarrow>
             Some (ADD_TASK \<lparr> t_id = taskId, t_prompt = prompt, t_assistantIds = assistantIds,
                               t_status = Running, t_createdAt = now,
                               t_result = None, t_error = None \<rparr>)
         | _ \<Rightarrow> None)
      else if m_type lastMessage = ''task-completed'' then
        (case m_data lastMessage of
           Some (TaskCompletedData taskId response) \<Rightarrow>
             Some (UPDATE_TASK taskId
                     (no_updates\<lparr> u_status := Some Completed, u_result := Some response \<rparr>))
         | _ \<Rightarrow> None)
      else if m_type lastMessage = ''task-error'' then
        (case m_data lastMessage of
           Some (TaskErrorData taskId err) \<Rightarrow>
             Some (UPDATE_TASK taskId
                     (no_updates\<lparr> u_status := Some Failed, u_error := Some err \<rparr>))
         | _ \<Rightarrow> None)
      else None)"

definition apply_message :: "string \<Rightarrow> SwarmState \<Rightarrow> WebSocketMessage \<Rightarrow> SwarmState" where
  "apply_message now state lastMessage =
     (case message_action now lastMessage of
        None \<Rightarrow> state
      | Some action \<Rightarrow> swarmReducer state action)"

text \<open>Envelopes as the server's \<open>broadcast\<close> builds them: type, data, timestamp.\<close>

definition envelope :: "string \<Rightarrow> Payload option \<Rightarrow> string \<Rightarrow> WebSocketMessage" where
  "envelope ty d ts = \<lparr> m_type = ty, m_data = d, m_timestamp = ts, m_clientId = None \<rparr>"

definition example_assistant :: Assistant where
  "example_assistant =
     \<lparr> a_id = ''a1'', a_name = ''X'', a_description = None, a_instructions = None,
       a_model = ''gpt-4-1106-preview'', a_tools = None, a_file_ids = None,
       a_metadata = None, a_created_at = 0 \<rparr>"

definition other_assistant :: Assistant where
  "other_assistant = example_assistant\<lparr> a_id := ''a2'', a_name := ''Z'' \<rparr>"

section \<open>Client: the connection of WebSocketProvider\<close>

text \<open>
  \<open>WebSocketProvider\<close> is a React function component. Its state is the \<open>useState\<close>
  cells; every render is a new call of the component function with new \<open>const\<close> bindings
  for \<open>socket\<close>, \<open>reconnectAttempts\<close> and \<open>connect\<close>. A function created during a render
  closes over the bindings of that render: the handlers that \<open>connect\<close> installs on the
  socket it creates, and the \<open>setTimeout\<close> callback, read the \<open>reconnectAttempts\<close>,
  \<open>socket\<close> and \<open>connect\<close> of the render that created that \<open>connect\<close>. The model keeps
  the captured values with each socket and each pending timer. \<open>connect\<close> is called in
  two places only: by the mount effect, whose dependency list is empty, so that it runs
  once with the \<open>connect\<close> of the first render; and by the \<open>setTimeout\<close> callback, which
  calls the \<open>connect\<close> it closes over.
\<close>

datatype ReadyState = CONNECTING | OPEN | CLOSING | CLOSED

datatype ConnectionStatus = S_connecting | S_connected | S_disconnected | S_error

record Closure =
  cap_socket :: "nat option"
  cap_reconnectAttempts :: nat

text \<open>A browser \<open>WebSocket\<close> object: its ready state, the closure of its handlers, and
  what was sent through it.\<close>

record BrowserSocket =
  bs_readyState :: ReadyState
  bs_handlers :: Closure
  bs_sent :: "json list"

datatype ConsoleEntry = LogReconnectIn nat | WarnNotConnected json

text \<open>The \<open>useState\<close> cells, the sockets created so far (a socket is named by its index),
  the pending timers with their delay in milliseconds, and the console.\<close>

record ProviderState =
  socket :: "nat option"
  isConnected :: bool
  lastMessage :: "WebSocketMessage option"
  connectionStatus :: ConnectionStatus
  reconnectAttempts :: nat
  sockets :: "BrowserSocket list"
  timers :: "(nat \<times> Closure) list"
  console :: "ConsoleEntry list"

definition maxReconnectAttempts :: nat where
  "maxReconnectAttempts = 5"

definition initialProvider :: ProviderState where
  "initialProvider =
     \<lparr> socket = None, isConnected = False, lastMessage = None,
       connectionStatus = S_disconnected, reconnectAttempts = 0,
       sockets = [], timers = [], console = [] \<rparr>"

text \<open>\<open>socket?.readyState === WebSocket.OPEN\<close> for a socket reference.\<close>

definition is_open :: "nat option \<Rightarrow> ProviderState \<Rightarrow> bool" where
  "is_open ref st =
     (case ref of
        None \<Rightarrow> False
      | Some k \<Rightarrow> k < length (sockets st) \<and> bs_readyState (sockets st ! k) = OPEN)"

text \<open>The bindings a render of the component gives to the functions it creates.\<close>

definition render_closure :: "ProviderState \<Rightarrow> Closure" where
  "render_closure st =
     \<lparr> cap_socket = socket st, cap_reconnectAttempts = reconnectAttempts st \<rparr>"

text \<open>\<open>connect\<close>, called as the function of the render with bindings \<open>env\<close>: the new socket's
  handlers close over the same bindings.\<close>

definition connect :: "Closure \<Rightarrow> ProviderState \<Rightarrow> ProviderState" where
  "connect env st =
     (if is_open (cap_socket env) st then st
      else st\<lparr> connectionStatus := S_connecting,
               sockets := sockets st @
                 [\<lparr> bs_readyState = CONNECTING, bs_handlers = env, bs_sent = [] \<rparr>],
               socket := Some (length (sockets st)) \<rparr>)"

definition onopen :: "ProviderState \<Rightarrow> ProviderState" where
  "onopen st =
     st\<lparr> isConnected := True, connectionStatus := S_connected, reconnectAttempts := 0 \<rparr>"

definition onclose :: "Closure \<Rightarrow> ProviderState \<Rightarrow> ProviderState" where
  "onclose env st =
     (if cap_reconnectAttempts env < maxReconnectAttempts then
        st\<lparr> isConnected := False, connectionStatus := S_disconnected,
            console := console st @ [LogReconnectIn (2 ^ cap_reconnectAttempts env * 1000)],
            timers := timers st @ [(2 ^ cap_reconnectAttempts env * 1000, env)] \<rparr>
      else st\<lparr> isConnected := False, connectionStatus := S_error \<rparr>)"

definition onerror :: "ProviderState \<Rightarrow> ProviderState" where
  "onerror st = st\<lparr> connectionStatus := S_error \<rparr>"

text \<open>The \<open>setTimeout\<close> callback: \<open>setReconnectAttempts(prev => prev + 1); connect()\<close>, where
  \<open>connect\<close> is the binding the callback closes over.\<close>

definition timeout_callback :: "Closure \<Rightarrow> ProviderState \<Rightarrow> ProviderState" where
  "timeout_callback env st = connect env (st\<lparr> reconnectAttempts := reconnectAttempts st + 1 \<rparr>)"

text \<open>
  The browser's \<open>WebSocket.send\<close>: it throws \<open>InvalidStateError\<close> while the socket is
  connecting, transmits when the socket is open, and drops the data once the socket is
  closing or closed.
\<close>

definition socket_send :: "json \<Rightarrow> BrowserSocket \<Rightarrow> string + BrowserSocket" where
  "socket_send message s =
     (case bs_readyState s of
        CONNECTING \<Rightarrow> Inl ''InvalidStateError''
      | OPEN \<Rightarrow> Inr (s\<lparr> bs_sent := bs_sent s @ [message] \<rparr>)
      | CLOSING \<Rightarrow> Inr s
      | CLOSED \<Rightarrow> Inr s)"

definition warn_not_connected :: "json \<Rightarrow> ProviderState \<Rightarrow> ProviderState" where
  "warn_not_connected message st = st\<lparr> console := console st @ [WarnNotConnected message] \<rparr>"

text \<open>\<open>sendMessage\<close> is rebuilt whenever \<open>socket\<close> changes, so it reads the current socket.
  \<open>Inl\<close> is an exception leaving the call.\<close>

definition sendMessage :: "json \<Rightarrow> ProviderState \<Rightarrow> string + ProviderState" where
  "sendMessage message st =
     (case socket st of
        None \<Rightarrow> Inr (warn_not_connected message st)
      | Some k \<Rightarrow>
          (if is_open (Some k) st then
             (case socket_send message (sockets st ! k) of
                Inl e \<Rightarrow> Inl e
              | Inr s \<Rightarrow> Inr (st\<lparr> sockets := (sockets st)[k := s] \<rparr>))
           else Inr (warn_not_connected message st)))"

definition set_readyState :: "nat \<Rightarrow> ReadyState \<Rightarrow> ProviderState \<Rightarrow> ProviderState" where
  "set_readyState k rs st =
     st\<lparr> sockets := (sockets st)[k := (sockets st ! k)\<lparr> bs_readyState := rs \<rparr>] \<rparr>"

text \<open>
  What can happen to the provider: the mount effect (\<open>useEffect(() => { connect() }, [])\<close>,
  which runs once, with the \<open>connect\<close> of the first render), the events of a socket it
  created, a pending timer firing, and a consumer calling \<open>sendMessage\<close>. An event for a
  socket or timer that does not exist changes nothing, and a call that throws leaves the
  state as it was.
\<close>

datatype ClientEvent =
    Mount
  | SocketOpen nat
  | SocketMessage nat WebSocketMessage
  | SocketError nat
  | SocketClose nat
  | TimerFire nat
  | SendMessage json

fun client_step :: "ProviderState \<Rightarrow> ClientEvent \<Rightarrow> ProviderState" where
  "client_step st Mount = connect (render_closure st) st"
| "client_step st (SocketOpen k) =
     (if k < length (sockets st) then onopen (set_readyState k OPEN st) else st)"
| "client_step st (SocketMessage k m) =
     (if k < length (sockets st) then st\<lparr> lastMessage := Some m \<rparr> else st)"
| "client_step st (SocketError k) =
     (if k < length (sockets st) then onerror st else st)"
| "client_step st (SocketClose k) =
     (if k < length (sockets st)
      then onclose (bs_handlers (sockets st ! k)) (set_readyState k CLOSED st) else st)"
| "client_step st (TimerFire i) =
     (if i < length (timers st)
      then timeout_callback (snd (timers st ! i))
             (st\<lparr> timers := take i (timers st) @ drop (Suc i) (timers st) \<rparr>)
      else st)"
| "client_step st (SendMessage m) =
     (case sendMessage m st of Inl e \<Rightarrow> st | Inr st' \<Rightarrow> st')"

definition client_run :: "ClientEvent list \<Rightarrow> ProviderState \<Rightarrow> ProviderState" where
  "client_run es st = foldl client_step st es"

text \<open>Everything sent so far, socket by socket.\<close>

definition sent_log :: "ProviderState \<Rightarrow> json list list" where
  "sent_log st = map bs_sent (sockets st)"

text \<open>The state without its console.\<close>

definition mute :: "ProviderState \<Rightarrow> ProviderState" where
  "mute st = st\<lparr> console := [] \<rparr>"

text \<open>The delays the provider announced on the console, in order.\<close>

fun reconnect_delays :: "ConsoleEntry list \<Rightarrow> nat list" where
  "reconnect_delays [] = []"
| "reconnect_delays (LogReconnectIn d # es) = d # reconnect_delays es"
| "reconnect_delays (WarnNotConnected m # es) = reconnect_delays es"

text \<open>A provider whose first socket has opened.\<close>

definition connected_provider :: ProviderState where
  "connected_provider = client_run [Mount, SocketOpen 0] initialProvider"

text \<open>The bindings of the first render, and the states in which every socket and every
  pending timer closes over them and every announced delay is one second.\<close>

definition first_render :: Closure where
  "first_render = render_closure initialProvider"

definition stale :: "ProviderState \<Rightarrow> bool" where
  "stale st =
     (list_all (\<lambda>s. bs_handlers s = first_render) (sockets st)
      \<and> list_all (\<lambda>t. snd t = first_render) (timers st)
      \<and> list_all (\<lambda>d. d = 1000) (reconnect_delays (console st)))"

text \<open>Six connection failures in a row after mounting: every socket errors and closes, and
  the timer that its close handler set fires.\<close>

definition six_failures :: "ClientEvent list" where
  "six_failures =
     [Mount,
      SocketError 0, SocketClose 0, TimerFire 0,
      SocketError 1, SocketClose 1, TimerFire 0,
      SocketError 2, SocketClose 2, TimerFire 0,
      SocketError 3, SocketClose 3, TimerFire 0,
      SocketError 4, SocketClose 4, TimerFire 0,
      SocketError 5, SocketClose 5]"

section \<open>Server: the client map of SwarmGUIServer\<close>

text \<open>
  The transport handle \<open>ws\<close> is \<open>any\<close> in the source. The model keeps what the server
  reads of it: the ready state (\<open>OPEN\<close> is the \<open>1\<close> that \<open>broadcast\<close> compares with), and
  what \<open>send\<close> does: \<open>None\<close> when it returns, \<open>Some msg\<close> when it throws an error with
  that message.
\<close>

record ServerSocket =
  readyState :: ReadyState
  send_error :: "string option"

record WebSocketClient =
  c_id :: string
  ws :: ServerSocket
  isAlive :: bool

text \<open>\<open>Map<string, WebSocketClient>\<close>: entries in insertion order, one per key.\<close>

type_synonym Registry = "(string \<times> WebSocketClient) list"

fun map_set :: "string \<Rightarrow> WebSocketClient \<Rightarrow> Registry \<Rightarrow> Registry" where
  "map_set k v [] = [(k, v)]"
| "map_set k v ((k', v') # rest) =
     (if k' = k then (k, v) # rest else (k', v') # map_set k v rest)"

definition map_delete :: "string \<Rightarrow> Registry \<Rightarrow> Registry" where
  "map_delete k r = filter (\<lambda>entry. fst entry \<noteq> k) r"

definition map_has :: "string \<Rightarrow> Registry \<Rightarrow> bool" where
  "map_has k r = (k \<in> set (map fst r))"

text \<open>The \<open>connection\<close> handler stores the client under the identifier that \<open>uuidv4()\<close>
  returned, and then sends the welcome envelope to the new socket only; the entry is
  stored whether or not that send throws.\<close>

definition on_connection :: "string \<Rightarrow> ServerSocket \<Rightarrow> Registry \<Rightarrow> Registry" where
  "on_connection clientId w r = map_set clientId \<lparr> c_id = clientId, ws = w, isAlive = True \<rparr> r"

definition welcome_message :: "string \<Rightarrow> string \<Rightarrow> WebSocketMessage" where
  "welcome_message clientId now =
     \<lparr> m_type = ''connected'', m_data = None, m_timestamp = now, m_clientId = Some clientId \<rparr>"

text \<open>The \<open>pong\<close> handler sets the flag of the client object of its connection, which the
  map holds while the connection is registered.\<close>

definition on_pong :: "string \<Rightarrow> Registry \<Rightarrow> Registry" where
  "on_pong clientId r =
     map (\<lambda>entry. if fst entry = clientId then (fst entry, (snd entry)\<lparr> isAlive := True \<rparr>)
                   else entry) r"

definition on_close :: "string \<Rightarrow> Registry \<Rightarrow> Registry" where
  "on_close clientId r = map_delete clientId r"

text \<open>The body of the \<open>setInterval\<close> callback, once over the map: the new map, and what was
  done to the transports. Deleting the entry being visited does not disturb a \<open>Map\<close>'s
  \<open>forEach\<close>; \<open>terminate\<close> and \<open>ping\<close> are taken to return.\<close>

datatype ProbeEffect = Terminated string | Pinged string

fun ping_interval :: "Registry \<Rightarrow> Registry \<times> ProbeEffect list" where
  "ping_interval [] = ([], [])"
| "ping_interval ((clientId, client) # rest) =
     (if \<not> isAlive client then
        (fst (ping_interval rest), Terminated clientId # snd (ping_interval rest))
      else
        ((clientId, client\<lparr> isAlive := False \<rparr>) # fst (ping_interval rest),
         Pinged clientId # snd (ping_interval rest)))"

datatype ServerEvent =
    Connection string ServerSocket
  | Pong string
  | Message string json
  | Close string
  | Tick

fun server_step :: "Registry \<Rightarrow> ServerEvent \<Rightarrow> Registry" where
  "server_step r (Connection clientId w) = on_connection clientId w r"
| "server_step r (Pong clientId) = on_pong clientId r"
| "server_step r (Message clientId m) = r"
| "server_step r (Close clientId) = on_close clientId r"
| "server_step r Tick = fst (ping_interval r)"

definition server_run :: "ServerEvent list \<Rightarrow> Registry \<Rightarrow> Registry" where
  "server_run es r = foldl server_step r es"

text \<open>Events between two ticks during which the connection \<open>clientId\<close> stays as it is: it
  sends no pong and does not close, no new connection gets its identifier, and the
  monitor does not tick.\<close>

fun silent_for :: "string \<Rightarrow> ServerEvent \<Rightarrow> bool" where
  "silent_for clientId (Connection k w) = (k \<noteq> clientId)"
| "silent_for clientId (Pong k) = (k \<noteq> clientId)"
| "silent_for clientId (Message k m) = True"
| "silent_for clientId (Close k) = (k \<noteq> clientId)"
| "silent_for clientId Tick = False"

text \<open>Events among which the connection \<open>clientId\<close> sends no pong and no new connection
  gets its identifier.\<close>

fun unresponsive_for :: "string \<Rightarrow> ServerEvent \<Rightarrow> bool" where
  "unresponsive_for clientId (Connection k w) = (k \<noteq> clientId)"
| "unresponsive_for clientId (Pong k) = (k \<noteq> clientId)"
| "unresponsive_for clientId (Message k m) = True"
| "unresponsive_for clientId (Close k) = True"
| "unresponsive_for clientId Tick = True"

subsection \<open>broadcast\<close>

text \<open>
  \<open>this.clients.forEach\<close> over the entries in order. The result lists the deliveries
  (client identifier and message) and the error that left the loop, if one did: the
  loop body has no handler, so a throwing \<open>send\<close> ends the iteration.
\<close>

fun forEach_send ::
  "WebSocketMessage \<Rightarrow> Registry \<Rightarrow> (string \<times> WebSocketMessage) list \<times> string option" where
  "forEach_send message [] = ([], None)"
| "forEach_send message ((clientId, client) # rest) =
     (if readyState (ws client) = OPEN then
        (case send_error (ws client) of
           Some err \<Rightarrow> ([], Some err)
         | None \<Rightarrow> ((clientId, message) # fst (forEach_send message rest),
                     snd (forEach_send message rest)))
      else forEach_send message rest)"

text \<open>\<open>broadcast(type, data)\<close> at clock reading \<open>now\<close>: the map after the call, the
  deliveries, and the error thrown to the caller. The payloads of this model are trees,
  which \<open>JSON.stringify\<close> serialises without throwing.\<close>

definition broadcast ::
  "string \<Rightarrow> Payload option \<Rightarrow> string \<Rightarrow> Registry \<Rightarrow>
     Registry \<times> (string \<times> WebSocketMessage) list \<times> string option" where
  "broadcast ty d now clients = (clients, forEach_send (envelope ty d now) clients)"

definition transport_open :: "string \<times> WebSocketClient \<Rightarrow> bool" where
  "transport_open entry = (readyState (ws (snd entry)) = OPEN)"

definition send_fails :: "string \<times> WebSocketClient \<Rightarrow> bool" where
  "send_fails entry = (transport_open entry \<and> send_error (ws (snd entry)) \<noteq> None)"

subsection \<open>register and unregister as operations\<close>

datatype RegistryOp = Register string ServerSocket | Unregister string

fun apply_op :: "Registry \<Rightarrow> RegistryOp \<Rightarrow> Registry" where
  "apply_op r (Register clientId w) = on_connection clientId w r"
| "apply_op r (Unregister clientId) = on_close clientId r"

fun run_ops :: "RegistryOp list \<Rightarrow> Registry \<Rightarrow> Registry" where
  "run_ops [] r = r"
| "run_ops (op # ops) r = run_ops ops (apply_op r op)"

fun registers :: "RegistryOp list \<Rightarrow> nat" where
  "registers [] = 0"
| "registers (Register clientId w # ops) = Suc (registers ops)"
| "registers (Unregister clientId # ops) = registers ops"

text \<open>The unregister calls whose identifier was in the map when they ran.\<close>

fun tracked_unregisters :: "RegistryOp list \<Rightarrow> Registry \<Rightarrow> nat" where
  "tracked_unregisters [] r = 0"
| "tracked_unregisters (Register clientId w # ops) r =
     tracked_unregisters ops (on_connection clientId w r)"
| "tracked_unregisters (Unregister clientId # ops) r =
     (if map_has clientId r then 1 else 0) + tracked_unregisters ops (on_close clientId r)"

text \<open>\<open>uuidv4()\<close> gives every connection an identifier that is not in the map.\<close>

fun fresh_ids :: "RegistryOp list \<Rightarrow> Registry \<Rightarrow> bool" where
  "fresh_ids [] r = True"
| "fresh_ids (Register clientId w # ops) r =
     (\<not> map_has clientId r \<and> fresh_ids ops (on_connection clientId w r))"
| "fresh_ids (Unregister clientId # ops) r = fresh_ids ops (on_close clientId r)"

subsection \<open>delegateTask\<close>

text \<open>
  \<open>delegateTask\<close> awaits the provider's \<open>delegateWithPrompt\<close>; the outcome of that promise
  is an input here, settled one way or the other. While the function waits, connections
  come and go, so the map and the clock are read twice: \<open>clients0\<close>, \<open>now0\<close> before the
  \<open>await\<close>, \<open>clients1\<close>, \<open>now1\<close> after it. The result lists the calls of \<open>broadcast\<close> in
  order, each with its envelope, its deliveries, and the error it threw.
\<close>

text \<open>
  What \<open>catch (error)\<close> receives from a rejected promise: \<open>null\<close> or \<open>undefined\<close>, on which
  reading \<open>error.message\<close> throws a \<open>TypeError\<close>; or any other value, with its \<open>message\<close>
  (\<open>None\<close> when it has none).
\<close>

datatype Thrown = Nullish | Value "string option"

text \<open>
  A promise resolved with \<open>null\<close> or \<open>undefined\<close> (\<open>None\<close>), or with a value of which the
  function reads \<open>concludedPrimaryRun\<close> and \<open>subRuns\<close>, each \<open>None\<close> when undefined; or a
  rejected promise.
\<close>

datatype ProviderOutcome =
    Resolved "(json option \<times> json option) option"
  | Rejected Thrown

text \<open>The \<open>TypeError\<close> of reading a property of \<open>null\<close> or \<open>undefined\<close>; its message is the
  engine's, and this string stands for it.\<close>

definition nullish_read_message :: string where
  "nullish_read_message = ''Cannot read properties of undefined''"

text \<open>\<open>{ parentRun, subRuns }\<close> as \<open>JSON.stringify\<close> writes it: a property whose value is
  undefined is left out.\<close>

definition response_object :: "json option \<Rightarrow> json option \<Rightarrow> json" where
  "response_object parentRun subRuns =
     JObj ((case parentRun of None \<Rightarrow> [] | Some v \<Rightarrow> [(''parentRun'', v)])
           @ (case subRuns of None \<Rightarrow> [] | Some v \<Rightarrow> [(''subRuns'', v)]))"

record BroadcastCall =
  bc_envelope :: WebSocketMessage
  bc_delivered :: "(string \<times> WebSocketMessage) list"
  bc_thrown :: "string option"

definition broadcast_call ::
  "string \<Rightarrow> Payload option \<Rightarrow> string \<Rightarrow> Registry \<Rightarrow> BroadcastCall" where
  "broadcast_call ty d now clients =
     \<lparr> bc_envelope = envelope ty d now,
       bc_delivered = fst (snd (broadcast ty d now clients)),
       bc_thrown = snd (snd (broadcast ty d now clients)) \<rparr>"

text \<open>The broadcast of the \<open>catch\<close> block, for an error whose \<open>message\<close> is \<open>msg\<close>.\<close>

definition task_error_call ::
  "string \<Rightarrow> string option \<Rightarrow> string \<Rightarrow> Registry \<Rightarrow> BroadcastCall" where
  "task_error_call taskId msg now clients =
     broadcast_call ''task-error'' (Some (TaskErrorData taskId msg)) now clients"

text \<open>
  The \<open>try\<close> block throws when the client is missing, when a broadcast throws (an error
  with the message of the failing send), when the promise is rejected, and when the
  response is \<open>null\<close> or \<open>undefined\<close>. The \<open>catch\<close> block reads \<open>error.message\<close> before it
  broadcasts, so for a rejection with \<open>null\<close> or \<open>undefined\<close> it throws in its turn and
  broadcasts nothing.
\<close>

definition delegateTask ::
  "bool \<Rightarrow> Registry \<Rightarrow> string \<Rightarrow> string \<Rightarrow> string \<Rightarrow> string list \<Rightarrow>
     ProviderOutcome \<Rightarrow> Registry \<Rightarrow> string \<Rightarrow> BroadcastCall list" where
  "delegateTask openaiClient clients0 now0 taskId prompt assistantIds outcome clients1 now1 =
     (if \<not> openaiClient then
        [task_error_call taskId (Some ''OpenAI client not initialized'') now0 clients0]
      else
        (let started = broadcast_call ''task-started''
                         (Some (TaskStartedData taskId prompt assistantIds)) now0 clients0
         in case bc_thrown started of
              Some err \<Rightarrow> [started, task_error_call taskId (Some err) now0 clients0]
            | None \<Rightarrow>
                (case outcome of
                   Rejected Nullish \<Rightarrow> [started]
                 | Rejected (Value msg) \<Rightarrow> [started, task_error_call taskId msg now1 clients1]
                 | Resolved None \<Rightarrow>
                     [started, task_error_call taskId (Some nullish_read_message) now1 clients1]
                 | Resolved (Some (parentRun, subRuns)) \<Rightarrow>
                     (let completed = broadcast_call ''task-completed''
                            (Some (TaskCompletedData taskId
                               (Some (response_object parentRun subRuns))))
                            now1 clients1
                      in case bc_thrown completed of
                           None \<Rightarrow> [started, completed]
                         | Some err \<Rightarrow>
                             [started, completed,
                              task_error_call taskId (Some err) now1 clients1]))))"

text \<open>Whether an envelope is a terminal one for a task, or its start.\<close>

definition carries_taskId :: "string \<Rightarrow> WebSocketMessage \<Rightarrow> bool" where
  "carries_taskId taskId m =
     (case m_data m of
        Some (TaskStartedData t p as) \<Rightarrow> t = taskId
      | Some (TaskCompletedData t resp) \<Rightarrow> t = taskId
      | Some (TaskErrorData t err) \<Rightarrow> t = taskId
      | _ \<Rightarrow> False)"

definition is_terminal :: "string \<Rightarrow> WebSocketMessage \<Rightarrow> bool" where
  "is_terminal taskId m =
     ((m_type m = ''task-completed'' \<or> m_type m = ''task-error'') \<and> carries_taskId taskId m)"

definition is_started :: "string \<Rightarrow> WebSocketMessage \<Rightarrow> bool" where
  "is_started taskId m = (m_type m = ''task-started'' \<and> carries_taskId taskId m)"

text \<open>A start envelope occurs, and a terminal envelope occurs after it.\<close>

definition started_before_terminal :: "string \<Rightarrow> WebSocketMessage list \<Rightarrow> bool" where
  "started_before_terminal taskId ms =
     (case dropWhile (\<lambda>m. \<not> is_started taskId m) ms of
        [] \<Rightarrow> False
      | m # rest \<Rightarrow> list_ex (is_terminal taskId) rest)"

text \<open>Connections and registries for examples.\<close>

definition sock :: "ReadyState \<Rightarrow> string option \<Rightarrow> ServerSocket" where
  "sock rs e = \<lparr> readyState = rs, send_error = e \<rparr>"

definition client_of :: "string \<Rightarrow> ServerSocket \<Rightarrow> bool \<Rightarrow> string \<times> WebSocketClient" where
  "client_of k w alive = (k, \<lparr> c_id = k, ws = w, isAlive = alive \<rparr>)"

text \<open>A connection is probed when it is not registered, or registered with its flag down.\<close>

definition probed :: "string \<Rightarrow> Registry \<Rightarrow> bool" where
  "probed k r = (case map_of r k of None \<Rightarrow> True | Some c \<Rightarrow> \<not> isAlive c)"

definition one_dashboard :: Registry where
  "one_dashboard = [client_of ''c1'' (sock OPEN None) True]"

definition failing_registry :: Registry where
  "failing_registry =
     [client_of ''c1'' (sock OPEN (Some ''write EPIPE'')) True,
      client_of ''c2'' (sock OPEN None) True]"

definition mixed_registry :: Registry where
  "mixed_registry =
     [client_of ''c1'' (sock OPEN None) True,
      client_of ''c2'' (sock CLOSED None) True,
      client_of ''c3'' (sock OPEN None) False]"

definition partly_failing_registry :: Registry where
  "partly_failing_registry =
     [client_of ''c1'' (sock OPEN None) True,
      client_of ''c2'' (sock CLOSED None) True,
      client_of ''c3'' (sock OPEN (Some ''write EPIPE'')) True,
      client_of ''c4'' (sock OPEN None) True]"

definition late_failure :: Registry where
  "late_failure =
     [client_of ''c1'' (sock OPEN None) True,
      client_of ''c9'' (sock OPEN (Some ''write EPIPE'')) True]"

definition quiet_events :: "ServerEvent list" where
  "quiet_events =
     [Message ''c1'' (JStr ''hello''), Connection ''c2'' (sock OPEN None), Pong ''c2'']"

definition example_ops :: "RegistryOp list" where
  "example_ops =
     [Register ''c1'' (sock OPEN None), Unregister ''zz'', Register ''c2'' (sock OPEN None),
      Unregister ''c1'', Unregister ''c1'', Register ''c3'' (sock CLOSED None)]"

section \<open>The projection: properties\<close>

lemma update_assistant_absent:
  "a_id p \<notin> a_id ` set xs \<Longrightarrow>
     map (\<lambda>assistant. if a_id assistant = a_id p then p else assistant) xs = xs"
  by (induction xs) auto

lemma update_assistant_twice:
  "map (\<lambda>assistant. if a_id assistant = a_id p then p else assistant)
     (map (\<lambda>assistant. if a_id assistant = a_id p then p else assistant) xs)
   = map (\<lambda>assistant. if a_id assistant = a_id p then p else assistant) xs"
  by (induction xs) auto

lemma spread_completed:
  "spread_task task (no_updates\<lparr> u_status := Some Completed, u_result := Some resp \<rparr>)
     = task\<lparr> t_status := Completed, t_result := resp \<rparr>"
  by (simp add: spread_task_def no_updates_def)

lemma update_task_absent:
  "i \<notin> t_id ` set ts \<Longrightarrow> map (\<lambda>task. if t_id task = i then f task else task) ts = ts"
  by (induction ts) auto

text \<open>
  C2, as the code has it. An \<open>assistant-created\<close> envelope with data puts the assistant
  at the end of the assistants list and changes nothing else; the reducer does not look
  at the identifiers already in the list. Applied twice, the same envelope leaves the
  assistant in the list twice.
\<close>

theorem assistant_created_appends:
  "apply_message now s
     \<lparr> m_type = ''assistant-created'', m_data = Some (AssistantData a),
       m_timestamp = ts, m_clientId = c \<rparr>
   = s\<lparr> assistants := assistants s @ [a] \<rparr>
   \<and> assistants (apply_message now
        (apply_message now s
           \<lparr> m_type = ''assistant-created'', m_data = Some (AssistantData a),
             m_timestamp = ts, m_clientId = c \<rparr>)
        \<lparr> m_type = ''assistant-created'', m_data = Some (AssistantData a),
          m_timestamp = ts, m_clientId = c \<rparr>)
     = assistants s @ [a, a]"
  by (simp add: apply_message_def message_action_def)

text \<open>
  C2, as the specification states it, fails: from the initial state, the envelope
  \<open>assistant-created\<close> for the assistant \<open>a1\<close> applied twice gives another state than
  applied once, and the list then holds two entries with the identifier \<open>a1\<close>.
\<close>

theorem assistant_created_twice_counterexample:
  "apply_message ''n'' (apply_message ''n'' initialState
       (envelope ''assistant-created'' (Some (AssistantData example_assistant)) ''ts''))
     (envelope ''assistant-created'' (Some (AssistantData example_assistant)) ''ts'')
   \<noteq> apply_message ''n'' initialState
       (envelope ''assistant-created'' (Some (AssistantData example_assistant)) ''ts'')
   \<and> \<not> distinct (map a_id (assistants (apply_message ''n'' (apply_message ''n'' initialState
       (envelope ''assistant-created'' (Some (AssistantData example_assistant)) ''ts''))
     (envelope ''assistant-created'' (Some (AssistantData example_assistant)) ''ts''))))"
  by (simp add: apply_message_def message_action_def envelope_def initialState_def)

text \<open>
  C6. From the initial state, the envelopes \<open>assistant-created\<close> for \<open>a1\<close> named \<open>X\<close>
  (whatever its other fields), \<open>task-started\<close> for \<open>t1\<close> with prompt \<open>p\<close> and assistants
  \<open>[a1]\<close>, and \<open>task-completed\<close> for \<open>t1\<close> with response \<open>{ok: true}\<close> give the state with
  the one assistant \<open>a1\<close> and the one task \<open>t1\<close>, completed, with result \<open>{ok: true}\<close>.
  In any state, a \<open>task-error\<close> envelope for a task identifier that no task of the list
  has leaves the state as it is.
\<close>

theorem scenario_and_orphan_task_error:
  "apply_message now3
     (apply_message now2
        (apply_message now1 initialState
           (envelope ''assistant-created''
              (Some (AssistantData
                 \<lparr> a_id = ''a1'', a_name = ''X'', a_description = descr,
                   a_instructions = instr, a_model = mdl, a_tools = tls,
                   a_file_ids = fids, a_metadata = meta, a_created_at = created \<rparr>)) ts1))
        (envelope ''task-started'' (Some (TaskStartedData ''t1'' ''p'' [''a1''])) ts2))
     (envelope ''task-completed''
        (Some (TaskCompletedData ''t1'' (Some (JObj [(''ok'', JBool True)])))) ts3)
   = initialState
       \<lparr> assistants :=
           [\<lparr> a_id = ''a1'', a_name = ''X'', a_description = descr,
              a_instructions = instr, a_model = mdl, a_tools = tls,
              a_file_ids = fids, a_metadata = meta, a_created_at = created \<rparr>],
         tasks :=
           [\<lparr> t_id = ''t1'', t_prompt = ''p'', t_assistantIds = [''a1''],
              t_status = Completed, t_createdAt = now2,
              t_result = Some (JObj [(''ok'', JBool True)]), t_error = None \<rparr>] \<rparr>
   \<and> (taskId \<notin> t_id ` set (tasks s) \<longrightarrow>
        apply_message now s (envelope ''task-error'' (Some (TaskErrorData taskId err)) ts) = s)"
  apply (rule conjI)
  subgoal
    by (simp add: apply_message_def message_action_def envelope_def initialState_def
        spread_completed)
  subgoal
    by (simp add: apply_message_def message_action_def envelope_def update_task_absent)
  done

theorem scenario_and_orphan_task_error_witness:
  "''t2'' \<notin> t_id ` set (tasks initialState) \<and>
   apply_message ''now'' initialState
     (envelope ''task-error'' (Some (TaskErrorData ''t2'' (Some ''boom''))) ''ts'')
   = initialState"
  using scenario_and_orphan_task_error
    [where taskId = "''t2''" and s = initialState and now = "''now''"
       and err = "Some ''boom''" and ts = "''ts''"]
  by (simp add: initialState_def)

text \<open>
  C7. For every projection state and every assistant \<open>p\<close>: when no assistant of the
  projection has the identifier of \<open>p\<close>, the action \<open>UPDATE_ASSISTANT\<close> with payload \<open>p\<close>,
  and the \<open>assistant-updated\<close> envelope that carries \<open>p\<close>, leave the state as it is; and
  whether the identifier is present or not, applying the action or the envelope twice
  gives the state that applying it once gives.
\<close>

theorem assistant_updated_noop_idempotent:
  "(a_id p \<notin> a_id ` set (assistants s) \<longrightarrow>
      swarmReducer s (UPDATE_ASSISTANT p) = s
      \<and> apply_message now s
           \<lparr> m_type = ''assistant-updated'', m_data = Some (AssistantData p),
             m_timestamp = ts, m_clientId = c \<rparr> = s)
   \<and> swarmReducer (swarmReducer s (UPDATE_ASSISTANT p)) (UPDATE_ASSISTANT p)
       = swarmReducer s (UPDATE_ASSISTANT p)
   \<and> apply_message now
        (apply_message now s
           \<lparr> m_type = ''assistant-updated'', m_data = Some (AssistantData p),
             m_timestamp = ts, m_clientId = c \<rparr>)
        \<lparr> m_type = ''assistant-updated'', m_data = Some (AssistantData p),
          m_timestamp = ts, m_clientId = c \<rparr>
       = apply_message now s
           \<lparr> m_type = ''assistant-updated'', m_data = Some (AssistantData p),
             m_timestamp = ts, m_clientId = c \<rparr>"
proof -
  have act: "message_action now
       \<lparr> m_type = ''assistant-updated'', m_data = Some (AssistantData p),
         m_timestamp = ts, m_clientId = c \<rparr> = Some (UPDATE_ASSISTANT p)"
    by (simp add: message_action_def)
  have twice: "swarmReducer (swarmReducer s (UPDATE_ASSISTANT p)) (UPDATE_ASSISTANT p)
       = swarmReducer s (UPDATE_ASSISTANT p)"
    by (simp add: update_assistant_twice)
  have absent: "a_id p \<notin> a_id ` set (assistants s) \<longrightarrow> swarmReducer s (UPDATE_ASSISTANT p) = s"
    by (simp add: update_assistant_absent)
  show ?thesis
    using twice absent by (simp only: apply_message_def act option.case) blast
qed

theorem assistant_updated_noop_idempotent_witness:
  "a_id example_assistant \<notin> a_id ` set (assistants (initialState\<lparr> assistants := [other_assistant] \<rparr>))
   \<and> apply_message ''n'' (initialState\<lparr> assistants := [other_assistant] \<rparr>)
       (envelope ''assistant-updated'' (Some (AssistantData example_assistant)) ''ts'')
     = initialState\<lparr> assistants := [other_assistant] \<rparr>
   \<and> apply_message ''n''
       (apply_message ''n'' (initialState\<lparr> assistants := [other_assistant, example_assistant] \<rparr>)
          (envelope ''assistant-updated''
             (Some (AssistantData (example_assistant\<lparr> a_name := ''Y'' \<rparr>))) ''ts''))
       (envelope ''assistant-updated''
          (Some (AssistantData (example_assistant\<lparr> a_name := ''Y'' \<rparr>))) ''ts'')
     = initialState
         \<lparr> assistants := [other_assistant, example_assistant\<lparr> a_name := ''Y'' \<rparr>] \<rparr>"
proof -
  have absent: "a_id example_assistant
      \<notin> a_id ` set (assistants (initialState\<lparr> assistants := [other_assistant] \<rparr>))"
    by (simp add: other_assistant_def example_assistant_def)
  have once: "apply_message ''n'' (initialState\<lparr> assistants := [other_assistant, example_assistant] \<rparr>)
       (envelope ''assistant-updated''
          (Some (AssistantData (example_assistant\<lparr> a_name := ''Y'' \<rparr>))) ''ts'')
     = initialState
         \<lparr> assistants := [other_assistant, example_assistant\<lparr> a_name := ''Y'' \<rparr>] \<rparr>"
    by (simp add: apply_message_def message_action_def envelope_def other_assistant_def
        example_assistant_def)
  from assistant_updated_noop_idempotent
    [where p = example_assistant and s = "initialState\<lparr> assistants := [other_assistant] \<rparr>"
       and now = "''n''" and ts = "''ts''" and c = None] absent
  have noop: "apply_message ''n'' (initialState\<lparr> assistants := [other_assistant] \<rparr>)
       (envelope ''assistant-updated'' (Some (AssistantData example_assistant)) ''ts'')
     = initialState\<lparr> assistants := [other_assistant] \<rparr>"
    by (simp add: envelope_def)
  from assistant_updated_noop_idempotent
    [where p = "example_assistant\<lparr> a_name := ''Y'' \<rparr>"
       and s = "initialState\<lparr> assistants := [other_assistant, example_assistant] \<rparr>"
       and now = "''n''" and ts = "''ts''" and c = None]
  have twice: "apply_message ''n''
       (apply_message ''n'' (initialState\<lparr> assistants := [other_assistant, example_assistant] \<rparr>)
          (envelope ''assistant-updated''
             (Some (AssistantData (example_assistant\<lparr> a_name := ''Y'' \<rparr>))) ''ts''))
       (envelope ''assistant-updated''
          (Some (AssistantData (example_assistant\<lparr> a_name := ''Y'' \<rparr>))) ''ts'')
     = apply_message ''n'' (initialState\<lparr> assistants := [other_assistant, example_assistant] \<rparr>)
          (envelope ''assistant-updated''
             (Some (AssistantData (example_assistant\<lparr> a_name := ''Y'' \<rparr>))) ''ts'')"
    by (simp add: envelope_def)
  show ?thesis using absent noop twice once by simp
qed

section \<open>The reconnecting client: properties\<close>

lemma reconnect_delays_append:
  "reconnect_delays (xs @ ys) = reconnect_delays xs @ reconnect_delays ys"
  by (induction xs rule: reconnect_delays.induct) simp_all

lemma stale_connect: "stale st \<Longrightarrow> stale (connect first_render st)"
  by (simp add: stale_def connect_def)

lemma stale_mount: "stale (client_step initialProvider Mount)"
  by (simp add: stale_def connect_def first_render_def initialProvider_def render_closure_def
      is_open_def)

lemma stale_step:
  assumes "stale st" and "e \<noteq> Mount"
  shows "stale (client_step st e)"
proof (cases e)
  case Mount
  then show ?thesis using assms by simp
next
  case (SocketOpen k)
  then show ?thesis using assms
    by (auto simp: stale_def onopen_def set_readyState_def list_all_length nth_list_update)
next
  case (SocketMessage k m)
  then show ?thesis using assms by (simp add: stale_def)
next
  case (SocketError k)
  then show ?thesis using assms by (simp add: stale_def onerror_def)
next
  case (SocketClose k)
  then show ?thesis using assms
    by (auto simp: stale_def onclose_def set_readyState_def list_all_length nth_list_update
        reconnect_delays_append first_render_def render_closure_def initialProvider_def
        maxReconnectAttempts_def nth_append)
next
  case (TimerFire i)
  show ?thesis
  proof (cases "i < length (timers st)")
    case False
    then show ?thesis using TimerFire assms by simp
  next
    case True
    then have env: "snd (timers st ! i) = first_render"
      using assms by (simp add: stale_def list_all_length)
    have "stale (st\<lparr> timers := take i (timers st) @ drop (Suc i) (timers st),
             reconnectAttempts := reconnectAttempts st + 1 \<rparr>)"
      using assms(1) by (auto simp: stale_def list_all_iff dest: in_set_takeD in_set_dropD)
    then show ?thesis using TimerFire True env
      by (simp add: timeout_callback_def stale_connect)
  qed
next
  case (SendMessage m)
  then show ?thesis using assms
    by (auto simp: stale_def sendMessage_def warn_not_connected_def socket_send_def is_open_def
        reconnect_delays_append list_all_length nth_list_update
        split: option.splits sum.splits ReadyState.splits)
qed

lemma stale_run:
  "stale st \<Longrightarrow> Mount \<notin> set es \<Longrightarrow> stale (client_run es st)"
  unfolding client_run_def
proof (induction es arbitrary: st)
  case Nil
  then show ?case by simp
next
  case (Cons e es)
  from Cons.prems have "e \<noteq> Mount" by auto
  with Cons.prems have "stale (client_step st e)" by (simp add: stale_step)
  moreover from Cons.prems have "Mount \<notin> set es" by simp
  ultimately have "stale (foldl client_step (client_step st e) es)" by (rule Cons.IH)
  then show ?case by simp
qed

text \<open>
  Whatever happens after the mount effect has run, every reconnect delay that the
  provider announces is 1000 ms: every socket's close handler reads the
  \<open>reconnectAttempts\<close> of the first render, which is 0.
\<close>

lemma every_reconnect_delay_is_base:
  assumes "Mount \<notin> set es"
  shows "list_all (\<lambda>d. d = 1000)
           (reconnect_delays (console (client_run es (client_step initialProvider Mount))))"
  using stale_run [OF stale_mount assms] by (simp add: stale_def)

text \<open>
  C1. The claim's delays are 1000, 2000, 4000, 8000, 16000 ms, and then the terminal
  \<open>error\<close> status with nothing scheduled. The code, on six connection failures in a row
  after mounting, announces 1000 ms six times; after the sixth failure the status is
  \<open>disconnected\<close>, a seventh attempt is scheduled in 1000 ms, and the state's counter
  stands at 5.
\<close>

theorem six_failures_delays:
  "reconnect_delays (console (client_run six_failures initialProvider))
     = [1000, 1000, 1000, 1000, 1000, 1000]
   \<and> connectionStatus (client_run six_failures initialProvider) = S_disconnected
   \<and> map fst (timers (client_run six_failures initialProvider)) = [1000]
   \<and> reconnectAttempts (client_run six_failures initialProvider) = 5"
  by (simp add: six_failures_def client_run_def initialProvider_def connect_def
      render_closure_def is_open_def onclose_def onerror_def timeout_callback_def
      set_readyState_def maxReconnectAttempts_def)

subsection \<open>sendMessage\<close>

lemma mute_console: "mute st = mute st' \<Longrightarrow> \<exists>c. st' = st\<lparr> console := c \<rparr>"
  by (cases st, cases st') (simp add: mute_def)

lemma mute_connect: "mute (connect env (st\<lparr> console := c \<rparr>)) = mute (connect env st)"
  by (auto simp: connect_def mute_def is_open_def split: option.splits)

lemma mute_sendMessage:
  "(case sendMessage m (st\<lparr> console := c \<rparr>) of Inl e \<Rightarrow> mute st | Inr x \<Rightarrow> mute x)
       = (case sendMessage m st of Inl e \<Rightarrow> mute st | Inr x \<Rightarrow> mute x)"
  by (simp add: sendMessage_def warn_not_connected_def mute_def is_open_def
      split: option.splits sum.splits)

lemma mute_upd: "mute (st\<lparr> console := c \<rparr>) = mute st"
  by (simp add: mute_def)

lemma mute_step_console:
  "mute (client_step (st\<lparr> console := c \<rparr>) e) = mute (client_step st e)"
proof (cases e)
  case (SendMessage m)
  show ?thesis
    using mute_sendMessage [where m = m and st = st and c = c] SendMessage
    by (simp add: mute_upd split: sum.splits)
next
  case Mount
  then show ?thesis
    by (simp add: mute_connect render_closure_def)
next
  case (SocketOpen k)
  then show ?thesis
    by (simp add: onopen_def set_readyState_def mute_def)
next
  case (SocketMessage k m)
  then show ?thesis by (simp add: mute_def)
next
  case (SocketError k)
  then show ?thesis by (simp add: onerror_def mute_def)
next
  case (SocketClose k)
  then show ?thesis
    by (simp add: onclose_def set_readyState_def mute_def)
next
  case (TimerFire i)
  then show ?thesis
    by (auto simp: timeout_callback_def connect_def mute_def is_open_def split: option.splits)
qed

lemma mute_client_step:
  assumes "mute st = mute st'"
  shows "mute (client_step st e) = mute (client_step st' e)"
proof -
  obtain c where "st' = st\<lparr> console := c \<rparr>"
    using mute_console [OF assms] by blast
  then show ?thesis by (simp only: mute_step_console)
qed

lemma mute_client_run:
  "mute st = mute st' \<Longrightarrow> mute (client_run es st) = mute (client_run es st')"
  unfolding client_run_def
proof (induction es arbitrary: st st')
  case Nil
  then show ?case by simp
next
  case (Cons e es)
  from Cons.prems have "mute (client_step st e) = mute (client_step st' e)"
    by (rule mute_client_step)
  then have "mute (foldl client_step (client_step st e) es)
      = mute (foldl client_step (client_step st' e) es)"
    by (rule Cons.IH)
  then show ?case by simp
qed

lemma mute_warn: "mute (warn_not_connected m st) = mute st"
  by (simp add: mute_def warn_not_connected_def)

lemma sent_log_mute: "mute st = mute st' \<Longrightarrow> sent_log st = sent_log st'"
proof -
  assume "mute st = mute st'"
  then obtain c where "st' = st\<lparr> console := c \<rparr>"
    using mute_console by blast
  then show ?thesis by (simp add: sent_log_def)
qed

lemma connected_provider_eq:
  "connected_provider =
     \<lparr> socket = Some 0, isConnected = True, lastMessage = None,
       connectionStatus = S_connected, reconnectAttempts = 0,
       sockets = [\<lparr> bs_readyState = OPEN,
                    bs_handlers = \<lparr> cap_socket = None, cap_reconnectAttempts = 0 \<rparr>,
                    bs_sent = [] \<rparr>],
       timers = [], console = [] \<rparr>"
  by (simp add: connected_provider_def client_run_def initialProvider_def connect_def
      render_closure_def is_open_def onopen_def set_readyState_def)

text \<open>
  C9. \<open>sendMessage\<close> never throws. While the current socket is not open (or there is
  none), the call only adds the warning to the console: nothing is sent, and whatever
  happens to the provider afterwards, what its sockets send is what they would have sent
  without the call, so the message is not kept for later. While the current socket is
  open, the message is sent on it at once.
\<close>

theorem sendMessage_best_effort:
  "(\<exists>st'. sendMessage m st = Inr st')
   \<and> (\<not> is_open (socket st) st \<longrightarrow>
        sendMessage m st = Inr (st\<lparr> console := console st @ [WarnNotConnected m] \<rparr>)
        \<and> sent_log (client_run es (client_step st (SendMessage m)))
            = sent_log (client_run es st))
   \<and> (is_open (socket st) st \<longrightarrow>
        (\<exists>k. socket st = Some k \<and>
          sendMessage m st = Inr (st\<lparr> sockets := (sockets st)
            [k := (sockets st ! k)\<lparr> bs_sent := bs_sent (sockets st ! k) @ [m] \<rparr>] \<rparr>)))"
proof (intro conjI impI)
  show "\<exists>st'. sendMessage m st = Inr st'"
    by (simp add: sendMessage_def is_open_def socket_send_def split: option.splits)
next
  assume closed: "\<not> is_open (socket st) st"
  then show "sendMessage m st = Inr (st\<lparr> console := console st @ [WarnNotConnected m] \<rparr>)"
    by (cases "socket st") (simp_all add: sendMessage_def warn_not_connected_def)
next
  assume closed: "\<not> is_open (socket st) st"
  then have "client_step st (SendMessage m) = warn_not_connected m st"
    by (cases "socket st") (simp_all add: sendMessage_def)
  then have "mute (client_step st (SendMessage m)) = mute st"
    by (simp add: mute_warn)
  then have "mute (client_run es (client_step st (SendMessage m))) = mute (client_run es st)"
    by (rule mute_client_run)
  then show "sent_log (client_run es (client_step st (SendMessage m)))
      = sent_log (client_run es st)"
    by (rule sent_log_mute)
next
  assume opened: "is_open (socket st) st"
  then show "\<exists>k. socket st = Some k \<and>
          sendMessage m st = Inr (st\<lparr> sockets := (sockets st)
            [k := (sockets st ! k)\<lparr> bs_sent := bs_sent (sockets st ! k) @ [m] \<rparr>] \<rparr>)"
    by (cases "socket st") (simp_all add: sendMessage_def is_open_def socket_send_def)
qed

theorem sendMessage_best_effort_witness:
  "\<not> is_open (socket initialProvider) initialProvider
   \<and> sendMessage (JStr ''hi'') initialProvider
       = Inr (initialProvider\<lparr> console := [WarnNotConnected (JStr ''hi'')] \<rparr>)
   \<and> sent_log (client_run [Mount, SocketOpen 0]
        (client_step initialProvider (SendMessage (JStr ''hi''))))
       = sent_log connected_provider
   \<and> is_open (socket connected_provider) connected_provider
   \<and> (\<exists>st'. sendMessage (JStr ''hi'') connected_provider = Inr st'
          \<and> sent_log st' = [[JStr ''hi'']])"
proof -
  have closed: "\<not> is_open (socket initialProvider) initialProvider"
    by (simp add: is_open_def initialProvider_def)
  have opened: "is_open (socket connected_provider) connected_provider"
    by (simp add: is_open_def connected_provider_eq)
  from sendMessage_best_effort
    [where m = "JStr ''hi''" and st = initialProvider and es = "[Mount, SocketOpen 0]"] closed
  have a: "sendMessage (JStr ''hi'') initialProvider
       = Inr (initialProvider
           \<lparr> console := console initialProvider @ [WarnNotConnected (JStr ''hi'')] \<rparr>)"
    and b: "sent_log (client_run [Mount, SocketOpen 0]
        (client_step initialProvider (SendMessage (JStr ''hi''))))
       = sent_log (client_run [Mount, SocketOpen 0] initialProvider)"
    by blast+
  from sendMessage_best_effort [where m = "JStr ''hi''" and st = connected_provider] opened
  obtain k where k: "socket connected_provider = Some k"
    and c: "sendMessage (JStr ''hi'') connected_provider
       = Inr (connected_provider\<lparr> sockets := (sockets connected_provider)
            [k := (sockets connected_provider ! k)
               \<lparr> bs_sent := bs_sent (sockets connected_provider ! k) @ [JStr ''hi''] \<rparr>] \<rparr>)"
    by blast
  from k have k0: "k = 0" by (simp add: connected_provider_eq)
  have d: "sent_log (connected_provider\<lparr> sockets := (sockets connected_provider)
            [k := (sockets connected_provider ! k)
               \<lparr> bs_sent := bs_sent (sockets connected_provider ! k) @ [JStr ''hi''] \<rparr>] \<rparr>)
       = [[JStr ''hi'']]"
    by (simp add: k0 sent_log_def connected_provider_eq)
  have a': "sendMessage (JStr ''hi'') initialProvider
       = Inr (initialProvider\<lparr> console := [WarnNotConnected (JStr ''hi'')] \<rparr>)"
    using a by (simp add: initialProvider_def)
  show ?thesis
    using closed a' b opened c d by (simp add: connected_provider_def)
qed

section \<open>The server: broadcast\<close>

lemma forEach_send_deliveries:
  "fst (forEach_send message r)
     = map (\<lambda>entry. (fst entry, message))
         (filter transport_open (takeWhile (\<lambda>entry. \<not> send_fails entry) r))"
  by (induction message r rule: forEach_send.induct)
     (auto simp: transport_open_def send_fails_def split: option.splits)

lemma forEach_send_thrown:
  "snd (forEach_send message r)
     = (case dropWhile (\<lambda>entry. \<not> send_fails entry) r of
          [] \<Rightarrow> None
        | entry # rest \<Rightarrow> send_error (ws (snd entry)))"
  by (induction message r rule: forEach_send.induct)
     (auto simp: transport_open_def send_fails_def split: option.splits)

text \<open>
  C3, as the code has it. A send that throws is not caught inside \<open>broadcast\<close>: the
  error leaves the call. The envelope has then reached the open connections that come
  before the first failing one in the map's order, and no connection from the failing
  one on. Without a failing connection, no error leaves the call.
\<close>

theorem broadcast_stops_at_first_failure:
  "fst (snd (broadcast ty d now r))
     = map (\<lambda>entry. (fst entry, envelope ty d now))
         (filter transport_open (takeWhile (\<lambda>entry. \<not> send_fails entry) r))
   \<and> snd (snd (broadcast ty d now r))
     = (case dropWhile (\<lambda>entry. \<not> send_fails entry) r of
          [] \<Rightarrow> None
        | entry # rest \<Rightarrow> send_error (ws (snd entry)))"
  by (simp add: broadcast_def forEach_send_deliveries forEach_send_thrown)

text \<open>
  C3, as the specification states it, fails: with the connections \<open>c1\<close> and \<open>c2\<close> both
  open, and the send of \<open>c1\<close> throwing, \<open>c2\<close> is open and its send would succeed, yet
  nothing is delivered and the error leaves \<open>broadcast\<close>.
\<close>

theorem broadcast_send_failure_counterexample:
  "transport_open (failing_registry ! 1) \<and> \<not> send_fails (failing_registry ! 1)
   \<and> send_fails (failing_registry ! 0)
   \<and> broadcast ''config-updated'' None ''ts'' failing_registry
      = (failing_registry, [], Some ''write EPIPE'')"
  by (simp add: failing_registry_def client_of_def sock_def transport_open_def send_fails_def
      broadcast_def)

text \<open>
  C4, as the code has it. \<open>broadcast\<close> returns the map as it was, whatever the
  connections, and delivers to open connections only. When no open connection's send
  throws, the envelope, stamped with the clock reading of the call, goes to the
  connections whose transport is open, each once and in the map's order, and to no
  other; the connections that are not open are passed over and no error leaves the call.
\<close>

theorem broadcast_open_only:
  "fst (broadcast ty d now r) = r
   \<and> set (fst (snd (broadcast ty d now r)))
       \<subseteq> set (map (\<lambda>entry. (fst entry, envelope ty d now)) (filter transport_open r))
   \<and> (list_all (\<lambda>entry. \<not> send_fails entry) r \<longrightarrow>
        snd (broadcast ty d now r)
          = (map (\<lambda>entry. (fst entry, envelope ty d now)) (filter transport_open r), None)
        \<and> length (fst (snd (broadcast ty d now r))) = length (filter transport_open r))"
proof (intro conjI impI)
  show "fst (broadcast ty d now r) = r" by (simp add: broadcast_def)
next
  have "set (takeWhile (\<lambda>entry. \<not> send_fails entry) r) \<subseteq> set r"
    by (auto dest: set_takeWhileD)
  then show "set (fst (snd (broadcast ty d now r)))
       \<subseteq> set (map (\<lambda>entry. (fst entry, envelope ty d now)) (filter transport_open r))"
    by (auto simp: broadcast_def forEach_send_deliveries)
next
  assume ok: "list_all (\<lambda>entry. \<not> send_fails entry) r"
  then have tw: "takeWhile (\<lambda>entry. \<not> send_fails entry) r = r"
    by (simp add: list_all_iff)
  from ok have dw: "dropWhile (\<lambda>entry. \<not> send_fails entry) r = []"
    by (simp add: list_all_iff)
  show "snd (broadcast ty d now r)
          = (map (\<lambda>entry. (fst entry, envelope ty d now)) (filter transport_open r), None)"
    by (simp add: broadcast_def prod_eq_iff forEach_send_deliveries forEach_send_thrown tw dw)
  then show "length (fst (snd (broadcast ty d now r))) = length (filter transport_open r)"
    by simp
qed

text \<open>
  C4, as stated, fails: of the four connections \<open>c1\<close> to \<open>c4\<close>, three are open and \<open>c2\<close>
  is closed; the send of \<open>c3\<close> throws. The envelope reaches \<open>c1\<close> only, not the three
  open connections, and the error leaves the call. The map is as it was.
\<close>

theorem broadcast_open_only_counterexample:
  "length (filter transport_open partly_failing_registry) = 3
   \<and> broadcast ''config-updated'' None ''ts'' partly_failing_registry
     = (partly_failing_registry,
        [(''c1'', envelope ''config-updated'' None ''ts'')], Some ''write EPIPE'')"
  by (simp add: partly_failing_registry_def client_of_def sock_def transport_open_def
      broadcast_def)

theorem broadcast_open_only_witness:
  "list_all (\<lambda>entry. \<not> send_fails entry) mixed_registry
   \<and> broadcast ''config-updated'' None ''ts'' mixed_registry
     = (mixed_registry,
        [(''c1'', envelope ''config-updated'' None ''ts''),
         (''c3'', envelope ''config-updated'' None ''ts'')], None)"
proof -
  have ok: "list_all (\<lambda>entry. \<not> send_fails entry) mixed_registry"
    by (simp add: mixed_registry_def client_of_def sock_def send_fails_def)
  have "filter transport_open mixed_registry
          = [client_of ''c1'' (sock OPEN None) True, client_of ''c3'' (sock OPEN None) False]"
    by (simp add: mixed_registry_def client_of_def sock_def transport_open_def)
  with ok broadcast_open_only [of "''config-updated''" None "''ts''" mixed_registry]
  show ?thesis by (simp add: prod_eq_iff client_of_def)
qed

section \<open>The server: the client map\<close>

lemma map_has_iff: "map_has k r \<longleftrightarrow> map_of r k \<noteq> None"
  by (simp add: map_has_def map_of_eq_None_iff)

lemma keys_map_set:
  "map fst (map_set k v r) = (if map_has k r then map fst r else map fst r @ [k])"
  by (induction r) (force simp: map_has_def)+

lemma distinct_map_set: "distinct (map fst r) \<Longrightarrow> distinct (map fst (map_set k v r))"
  by (simp add: keys_map_set map_has_def)

lemma length_map_set:
  "\<not> map_has k r \<Longrightarrow> length (map_set k v r) = Suc (length r)"
  using arg_cong [OF keys_map_set, of length k v r] by simp

lemma map_of_map_set: "map_of (map_set k v r) k' = (if k' = k then Some v else map_of r k')"
  by (induction r) auto

lemma distinct_map_delete: "distinct (map fst r) \<Longrightarrow> distinct (map fst (map_delete k r))"
  by (simp add: map_delete_def distinct_map_filter)

lemma map_of_map_delete:
  "map_of (map_delete k r) k' = (if k' = k then None else map_of r k')"
  by (induction r) (auto simp: map_delete_def)

lemma map_delete_absent: "\<not> map_has k r \<Longrightarrow> map_delete k r = r"
  by (induction r) (auto simp: map_delete_def map_has_def)

lemma length_map_delete:
  "distinct (map fst r) \<Longrightarrow> map_has k r \<Longrightarrow> Suc (length (map_delete k r)) = length r"
proof (induction r)
  case Nil
  then show ?case by (simp add: map_has_def)
next
  case (Cons e r)
  show ?case
  proof (cases "fst e = k")
    case True
    with Cons.prems have "\<not> map_has k r" by (auto simp: map_has_def)
    then have "map_delete k r = r" by (rule map_delete_absent)
    with True show ?thesis by (simp add: map_delete_def)
  next
    case False
    with Cons.prems have "map_has k r" and "distinct (map fst r)"
      by (auto simp: map_has_def)
    with Cons.IH have "Suc (length (map_delete k r)) = length r" by simp
    with False show ?thesis by (simp add: map_delete_def)
  qed
qed

lemma distinct_on_pong: "map fst (on_pong k r) = map fst r"
  by (induction r) (auto simp: on_pong_def)

lemma map_of_on_pong:
  "map_of (on_pong k r) k' =
     (if k' = k then map_option (\<lambda>c. c\<lparr> isAlive := True \<rparr>) (map_of r k) else map_of r k')"
  by (induction r) (auto simp: on_pong_def)

section \<open>The server: the liveness monitor\<close>

lemma keys_ping_interval: "set (map fst (fst (ping_interval r))) \<subseteq> set (map fst r)"
  by (induction r rule: ping_interval.induct) auto

lemma distinct_ping_interval:
  "distinct (map fst r) \<Longrightarrow> distinct (map fst (fst (ping_interval r)))"
proof (induction r rule: ping_interval.induct)
  case 1
  then show ?case by simp
next
  case (2 clientId client rest)
  then show ?case using keys_ping_interval [of rest] by auto
qed

lemma map_of_ping_interval:
  "distinct (map fst r) \<Longrightarrow>
   map_of (fst (ping_interval r)) k =
     (case map_of r k of
        None \<Rightarrow> None
      | Some c \<Rightarrow> if isAlive c then Some (c\<lparr> isAlive := False \<rparr>) else None)"
proof (induction r rule: ping_interval.induct)
  case 1
  then show ?case by simp
next
  case (2 clientId client rest)
  then have "clientId \<notin> set (map fst rest)" by simp
  then have "map_of rest clientId = None" by (simp add: map_of_eq_None_iff)
  with 2 show ?case by (auto split: option.splits)
qed

lemma terminated_iff:
  "Terminated k \<in> set (snd (ping_interval r)) \<longleftrightarrow> (\<exists>c. (k, c) \<in> set r \<and> \<not> isAlive c)"
  by (induction r rule: ping_interval.induct) auto

lemma pinged_iff:
  "Pinged k \<in> set (snd (ping_interval r)) \<longleftrightarrow> (\<exists>c. (k, c) \<in> set r \<and> isAlive c)"
  by (induction r rule: ping_interval.induct) auto

lemma distinct_server_step:
  "distinct (map fst r) \<Longrightarrow> distinct (map fst (server_step r e))"
  by (cases e)
     (simp_all add: on_connection_def distinct_map_set distinct_on_pong on_close_def
        distinct_map_delete distinct_ping_interval)

lemma distinct_server_run:
  "distinct (map fst r) \<Longrightarrow> distinct (map fst (server_run es r))"
  unfolding server_run_def
  by (induction es arbitrary: r) (simp_all add: distinct_server_step)

lemma silent_step:
  "silent_for k e \<Longrightarrow> map_of (server_step r e) k = map_of r k"
  by (cases e)
     (simp_all add: on_connection_def map_of_map_set map_of_on_pong on_close_def
        map_of_map_delete)

lemma silent_run:
  "list_all (silent_for k) es \<Longrightarrow> map_of (server_run es r) k = map_of r k"
  unfolding server_run_def
  by (induction es arbitrary: r) (simp_all add: silent_step)

lemma probed_step:
  "distinct (map fst r) \<Longrightarrow> unresponsive_for k e \<Longrightarrow> probed k r \<Longrightarrow> probed k (server_step r e)"
  by (cases e)
     (auto simp: probed_def on_connection_def map_of_map_set map_of_on_pong on_close_def
        map_of_map_delete map_of_ping_interval split: option.splits)

lemma probed_run:
  "distinct (map fst r) \<Longrightarrow> list_all (unresponsive_for k) es \<Longrightarrow> probed k r
     \<Longrightarrow> probed k (server_run es r)"
  unfolding server_run_def
  by (induction es arbitrary: r) (simp_all add: probed_step distinct_server_step)

lemma probed_tick: "distinct (map fst r) \<Longrightarrow> probed k (server_step r Tick)"
  by (cases "map_of r k")
     (simp_all add: probed_def map_of_ping_interval del: map_of_eq_Some_iff)

lemma evicted_tick:
  "distinct (map fst r) \<Longrightarrow> probed k r \<Longrightarrow> map_of (server_step r Tick) k = None"
  by (cases "map_of r k")
     (simp_all add: probed_def map_of_ping_interval del: map_of_eq_Some_iff)

text \<open>
  C5. In a map with one entry per key: a registered connection whose flag is up is
  probed by a tick, not terminated, and stays registered with its flag down; if then,
  until the next tick, it sends no pong and does not close (and nothing else takes its
  identifier), it is still registered when that tick comes, and that tick terminates and
  unregisters it. And whatever its flag, a connection that sends no pong from one tick
  on (while anything else may happen, further ticks too) is no longer registered after
  the second of two ticks. Ticks are counted; their 30 seconds are not modelled.
\<close>

theorem unresponsive_evicted_on_second_tick:
  assumes "distinct (map fst r)"
  shows "(map_of r k = Some c \<and> isAlive c \<and> list_all (silent_for k) es \<longrightarrow>
            map_of (server_step r Tick) k = Some (c\<lparr> isAlive := False \<rparr>)
          \<and> Pinged k \<in> set (snd (ping_interval r))
          \<and> Terminated k \<notin> set (snd (ping_interval r))
          \<and> map_of (server_run es (server_step r Tick)) k = Some (c\<lparr> isAlive := False \<rparr>)
          \<and> Terminated k \<in> set (snd (ping_interval (server_run es (server_step r Tick))))
          \<and> map_of (server_step (server_run es (server_step r Tick)) Tick) k = None)
       \<and> (list_all (unresponsive_for k) es' \<longrightarrow>
            \<not> map_has k (server_step (server_run es' (server_step r Tick)) Tick))"
proof (intro conjI impI)
  assume h: "map_of r k = Some c \<and> isAlive c \<and> list_all (silent_for k) es"
  then have reg: "map_of r k = Some c" and alive: "isAlive c"
    and silent: "list_all (silent_for k) es" by simp_all
  show first: "map_of (server_step r Tick) k = Some (c\<lparr> isAlive := False \<rparr>)"
    using assms reg alive by (simp add: map_of_ping_interval)
  from reg have mem: "(k, c) \<in> set r" by (rule map_of_SomeD)
  then show "Pinged k \<in> set (snd (ping_interval r))"
    using alive by (auto simp: pinged_iff)
  show "Terminated k \<notin> set (snd (ping_interval r))"
  proof
    assume "Terminated k \<in> set (snd (ping_interval r))"
    then obtain c' where c': "(k, c') \<in> set r" "\<not> isAlive c'"
      by (auto simp: terminated_iff)
    with assms have "map_of r k = Some c'" by simp
    with reg alive c' show False by simp
  qed
  show mid: "map_of (server_run es (server_step r Tick)) k = Some (c\<lparr> isAlive := False \<rparr>)"
    using silent first by (simp add: silent_run)
  then have "(k, c\<lparr> isAlive := False \<rparr>) \<in> set (server_run es (server_step r Tick))"
    by (rule map_of_SomeD)
  then show "Terminated k \<in> set (snd (ping_interval (server_run es (server_step r Tick))))"
    by (auto simp: terminated_iff)
  have d: "distinct (map fst (server_run es (server_step r Tick)))"
    using assms by (intro distinct_server_run distinct_server_step)
  show "map_of (server_step (server_run es (server_step r Tick)) Tick) k = None"
    using d mid by (simp add: map_of_ping_interval)
next
  assume u: "list_all (unresponsive_for k) es'"
  have d1: "distinct (map fst (server_step r Tick))"
    using assms by (rule distinct_server_step)
  have "probed k (server_step r Tick)" using assms by (rule probed_tick)
  with d1 u have p: "probed k (server_run es' (server_step r Tick))"
    by (rule probed_run)
  have "distinct (map fst (server_run es' (server_step r Tick)))"
    using d1 by (rule distinct_server_run)
  from this p have "map_of (server_step (server_run es' (server_step r Tick)) Tick) k = None"
    by (rule evicted_tick)
  then show "\<not> map_has k (server_step (server_run es' (server_step r Tick)) Tick)"
    by (simp add: map_has_iff)
qed

theorem unresponsive_evicted_on_second_tick_witness:
  "distinct (map fst one_dashboard)
   \<and> map_of one_dashboard ''c1'' = Some (snd (client_of ''c1'' (sock OPEN None) True))
   \<and> list_all (silent_for ''c1'') quiet_events
   \<and> list_all (unresponsive_for ''c1'') (quiet_events @ [Tick, Close ''c2''])
   \<and> map_of (server_step one_dashboard Tick) ''c1''
       = Some (snd (client_of ''c1'' (sock OPEN None) False))
   \<and> Terminated ''c1'' \<notin> set (snd (ping_interval one_dashboard))
   \<and> map_of (server_run quiet_events (server_step one_dashboard Tick)) ''c1''
       = Some (snd (client_of ''c1'' (sock OPEN None) False))
   \<and> Terminated ''c1''
       \<in> set (snd (ping_interval (server_run quiet_events (server_step one_dashboard Tick))))
   \<and> map_of (server_step (server_run quiet_events (server_step one_dashboard Tick)) Tick)
         ''c1'' = None
   \<and> \<not> map_has ''c1''
         (server_step (server_run (quiet_events @ [Tick, Close ''c2''])
            (server_step one_dashboard Tick)) Tick)"
proof -
  have d: "distinct (map fst one_dashboard)"
    by (simp add: one_dashboard_def client_of_def)
  have reg: "map_of one_dashboard ''c1'' = Some (snd (client_of ''c1'' (sock OPEN None) True))"
    by (simp add: one_dashboard_def client_of_def)
  have alive: "isAlive (snd (client_of ''c1'' (sock OPEN None) True))"
    by (simp add: client_of_def)
  have silent: "list_all (silent_for ''c1'') quiet_events"
    by (simp add: quiet_events_def)
  have unresp: "list_all (unresponsive_for ''c1'') (quiet_events @ [Tick, Close ''c2''])"
    by (simp add: quiet_events_def)
  have flag: "(snd (client_of ''c1'' (sock OPEN None) True))\<lparr> isAlive := False \<rparr>
      = snd (client_of ''c1'' (sock OPEN None) False)"
    by (simp add: client_of_def)
  from unresponsive_evicted_on_second_tick
    [OF d, where k = "''c1''" and c = "snd (client_of ''c1'' (sock OPEN None) True)"
       and es = quiet_events and es' = "quiet_events @ [Tick, Close ''c2'']"]
    reg alive silent unresp
  show ?thesis unfolding flag using d by blast
qed

section \<open>The server: register and unregister\<close>

lemma registry_count_general:
  "distinct (map fst r) \<Longrightarrow> fresh_ids ops r \<Longrightarrow>
     length (run_ops ops r) + tracked_unregisters ops r = length r + registers ops"
proof (induction ops arbitrary: r)
  case Nil
  then show ?case by simp
next
  case (Cons op ops)
  show ?case
  proof (cases op)
    case (Register k w)
    with Cons.prems have fresh: "\<not> map_has k r" and rest: "fresh_ids ops (on_connection k w r)"
      by simp_all
    have d: "distinct (map fst (on_connection k w r))"
      using Cons.prems(1) by (simp add: on_connection_def distinct_map_set)
    have len: "length (on_connection k w r) = Suc (length r)"
      using fresh by (simp add: on_connection_def length_map_set)
    from Cons.IH [OF d rest] len Register show ?thesis by simp
  next
    case (Unregister k)
    with Cons.prems have rest: "fresh_ids ops (on_close k r)" by simp
    have d: "distinct (map fst (on_close k r))"
      using Cons.prems(1) by (simp add: on_close_def distinct_map_delete)
    show ?thesis
    proof (cases "map_has k r")
      case True
      then have "Suc (length (on_close k r)) = length r"
        using Cons.prems(1) by (simp add: on_close_def length_map_delete)
      with Cons.IH [OF d rest] True Unregister show ?thesis by simp
    next
      case False
      then have "on_close k r = r" by (simp add: on_close_def map_delete_absent)
      with Cons.IH [OF d rest] False Unregister show ?thesis by simp
    qed
  qed
qed

text \<open>
  C8. For every sequence of register and unregister operations in which every
  registered identifier is new to the map, as those of \<open>uuidv4()\<close> are: the size of the
  map after the sequence, plus the number of unregister calls whose identifier was in
  the map when they ran, is the size before plus the number of register calls; from the
  empty map of a new server, the size is the registers minus those unregisters.
  Unregistering an identifier that is not in the map returns the map as it was.
\<close>

theorem registry_count:
  "(distinct (map fst r) \<and> fresh_ids ops r \<longrightarrow>
      length (run_ops ops r) + tracked_unregisters ops r = length r + registers ops)
   \<and> (fresh_ids ops [] \<longrightarrow>
      length (run_ops ops []) = registers ops - tracked_unregisters ops [])
   \<and> (\<not> map_has k r \<longrightarrow> apply_op r (Unregister k) = r)"
proof (intro conjI impI)
  assume "distinct (map fst r) \<and> fresh_ids ops r"
  then show "length (run_ops ops r) + tracked_unregisters ops r = length r + registers ops"
    by (simp add: registry_count_general)
next
  assume "fresh_ids ops []"
  then have "length (run_ops ops []) + tracked_unregisters ops [] = length ([] :: Registry) + registers ops"
    by (intro registry_count_general) simp_all
  then show "length (run_ops ops []) = registers ops - tracked_unregisters ops []"
    by simp
next
  assume "\<not> map_has k r"
  then show "apply_op r (Unregister k) = r"
    by (simp add: on_close_def map_delete_absent)
qed

theorem registry_count_witness:
  "fresh_ids example_ops [] \<and> distinct (map fst ([] :: Registry))
   \<and> registers example_ops = 3 \<and> tracked_unregisters example_ops [] = 1
   \<and> length (run_ops example_ops []) = 2
   \<and> \<not> map_has ''zz'' (run_ops example_ops [])
   \<and> apply_op (run_ops example_ops []) (Unregister ''zz'') = run_ops example_ops []"
proof -
  have f: "fresh_ids example_ops []"
    by (simp add: example_ops_def on_connection_def on_close_def map_delete_def map_has_def)
  have r: "registers example_ops = 3" by (simp add: example_ops_def)
  have t: "tracked_unregisters example_ops [] = 1"
    by (simp add: example_ops_def on_connection_def on_close_def map_delete_def map_has_def)
  have z: "\<not> map_has ''zz'' (run_ops example_ops [])"
    by (simp add: example_ops_def on_connection_def on_close_def map_delete_def map_has_def)
  from registry_count [of "[]" example_ops "''zz''"] f
  have "length (run_ops example_ops []) = registers example_ops - tracked_unregisters example_ops []"
    by simp
  moreover from registry_count [of "run_ops example_ops []" "[]" "''zz''"] z
  have "apply_op (run_ops example_ops []) (Unregister ''zz'') = run_ops example_ops []"
    by blast
  ultimately show ?thesis using f r t z by simp
qed

section \<open>The server: delegateTask\<close>

lemma envelope_simps [simp]:
  "m_type (envelope ty d ts) = ty" "m_data (envelope ty d ts) = d"
  by (simp_all add: envelope_def)

lemma bc_envelope_call [simp]: "bc_envelope (broadcast_call ty d now r) = envelope ty d now"
  by (simp add: broadcast_call_def)

lemma bc_envelope_error [simp]:
  "bc_envelope (task_error_call taskId msg now r)
     = envelope ''task-error'' (Some (TaskErrorData taskId msg)) now"
  by (simp add: task_error_call_def)

lemma forEach_send_no_failure:
  "list_all (\<lambda>entry. \<not> send_fails entry) r \<Longrightarrow> snd (forEach_send message r) = None"
  by (induction message r rule: forEach_send.induct)
     (auto simp: transport_open_def send_fails_def split: option.splits)

lemma no_failure_call:
  "list_all (\<lambda>entry. \<not> send_fails entry) r \<Longrightarrow> bc_thrown (broadcast_call ty d now r) = None"
  by (simp add: broadcast_call_def broadcast_def forEach_send_no_failure)

text \<open>
  Apart from the two failures below, the code does what C10 says: when no send throws
  in the map as it is after the provider call has settled, and the promise is not
  rejected with \<open>null\<close> or \<open>undefined\<close>, exactly one terminal envelope with the task
  identifier is broadcast, and with the client initialised a \<open>task-started\<close> envelope
  with the identifier is broadcast before a terminal one.
\<close>

lemma delegateTask_one_terminal_otherwise:
  assumes "list_all (\<lambda>entry. \<not> send_fails entry) clients_end"
    and "outcome \<noteq> Rejected Nullish"
  shows "length (filter (is_terminal taskId)
        (map bc_envelope
           (delegateTask openaiClient clients_start now_start taskId prompt assistantIds outcome
              clients_end now_end))) = 1"
    and "openaiClient \<Longrightarrow>
        started_before_terminal taskId
          (map bc_envelope
             (delegateTask openaiClient clients_start now_start taskId prompt assistantIds
                outcome clients_end now_end))"
  using no_failure_call [OF assms(1)] assms(2)
  by (simp_all add: delegateTask_def Let_def is_terminal_def carries_taskId_def
      started_before_terminal_def is_started_def
      split: option.splits ProviderOutcome.splits Thrown.splits prod.splits)

text \<open>
  C10. The claim is that every call broadcasts exactly one terminal envelope
  (\<open>task-completed\<close> or \<open>task-error\<close>) with the task identifier, after \<open>task-started\<close> when
  the client is initialised. The code does not, in two calls with the client
  initialised. In the first the provider call resolves, and by then a connection \<open>c9\<close>
  whose send throws has joined \<open>c1\<close>: the broadcast of \<open>task-completed\<close> reaches \<open>c1\<close> and
  throws at \<open>c9\<close>, and the \<open>catch\<close> block then broadcasts \<open>task-error\<close>, which reaches \<open>c1\<close>
  too, so that two terminal envelopes carry the identifier. In the second the promise is
  rejected with \<open>undefined\<close>: the \<open>catch\<close> block throws on \<open>error.message\<close>, and after
  \<open>task-started\<close> no terminal envelope is broadcast.
\<close>

theorem delegateTask_failing_calls:
  "map (m_type \<circ> bc_envelope)
     (delegateTask True one_dashboard ''t0'' ''task-1'' ''p'' [''<any>'']
        (Resolved (Some (Some JNull, Some (JArr [])))) late_failure ''t1'')
   = [''task-started'', ''task-completed'', ''task-error'']
   \<and> map (map fst \<circ> bc_delivered)
     (delegateTask True one_dashboard ''t0'' ''task-1'' ''p'' [''<any>'']
        (Resolved (Some (Some JNull, Some (JArr [])))) late_failure ''t1'')
   = [[''c1''], [''c1''], [''c1'']]
   \<and> map bc_thrown
     (delegateTask True one_dashboard ''t0'' ''task-1'' ''p'' [''<any>'']
        (Resolved (Some (Some JNull, Some (JArr [])))) late_failure ''t1'')
   = [None, Some ''write EPIPE'', Some ''write EPIPE'']
   \<and> length (filter (is_terminal ''task-1'')
        (map bc_envelope
           (delegateTask True one_dashboard ''t0'' ''task-1'' ''p'' [''<any>'']
              (Resolved (Some (Some JNull, Some (JArr [])))) late_failure ''t1''))) = 2
   \<and> map (m_type \<circ> bc_envelope)
     (delegateTask True one_dashboard ''t0'' ''task-1'' ''p'' [''<any>'']
        (Rejected Nullish) one_dashboard ''t1'')
   = [''task-started'']
   \<and> length (filter (is_terminal ''task-1'')
        (map bc_envelope
           (delegateTask True one_dashboard ''t0'' ''task-1'' ''p'' [''<any>'']
              (Rejected Nullish) one_dashboard ''t1''))) = 0"
  by (simp add: delegateTask_def Let_def broadcast_call_def task_error_call_def broadcast_def
      one_dashboard_def late_failure_def client_of_def sock_def is_terminal_def
      carries_taskId_def response_object_def)

end
